theory Spec2Isabelle
  imports Main
begin

section \<open>Errors\<close>

text \<open>
  Go error values. \<open>Canceled\<close> and \<open>DeadlineExceeded\<close> are the two sentinels of package
  context, \<open>Leaf\<close> is any other error with its message (a failed stat, a parse failure,
  an exit status), \<open>Wrapped\<close> is what errors.Wrap and errors.Wrapf build (message first,
  then the wrapped error), \<open>Joined\<close> is what errors.Join builds. A Go value of type error
  that may be nil is an \<open>error option\<close>, nil being \<open>None\<close>.
\<close>

datatype error =
    Canceled
  | DeadlineExceeded
  | Leaf string
  | Wrapped string error
  | Joined "error list"

text \<open>errors.Is(err, target) for a comparable target: the chain of Unwrap is followed,
  and every member of a joined error is searched.\<close>

fun Is :: "error \<Rightarrow> error \<Rightarrow> bool" where
  "Is Canceled t = (t = Canceled)"
| "Is DeadlineExceeded t = (t = DeadlineExceeded)"
| "Is (Leaf m) t = (t = Leaf m)"
| "Is (Wrapped m e) t = (t = Wrapped m e \<or> Is e t)"
| "Is (Joined es) t = (t = Joined es \<or> list_ex (\<lambda>e. Is e t) es)"

text \<open>errors.Wrap and errors.Wrapf of github.com/bobg/errors: nil stays nil, any
  other error is wrapped with the message.\<close>

definition Wrap :: "error option \<Rightarrow> string \<Rightarrow> error option" where
  "Wrap err msg = (case err of None \<Rightarrow> None | Some e \<Rightarrow> Some (Wrapped msg e))"

text \<open>errors.Join: nil arguments are dropped; nil when nothing is left.\<close>

definition Join :: "error option list \<Rightarrow> error option" where
  "Join errs =
     (let es = List.map_filter (\<lambda>x. x) errs
      in if es = [] then None else Some (Joined es))"

section \<open>Timestamps\<close>

text \<open>A time.Time is modelled by the instant it denotes, an integer count of
  nanoseconds from the zero Time; the zero value is 0. Time.Equal compares instants.\<close>

type_synonym time = int

record timePair =
  cert :: time
  key :: time

definition zero_timePair :: timePair where
  "zero_timePair = \<lparr>cert = 0, key = 0\<rparr>"

definition equal :: "timePair \<Rightarrow> timePair \<Rightarrow> bool" where
  "equal p other = (cert p = cert other \<and> key p = key other)"

text \<open>The directory and the two paths filepath.Join makes of it (filepath.Join is
  not code of this repository; its results are taken as given).\<close>

record paths =
  dir :: string
  certfile :: string
  keyfile :: string

text \<open>check of run.go. The two arguments after the paths are what os.Stat gives for
  fullchain.pem and for privkey.pem: an error, or the file's ModTime. The second stat is
  not looked at when the first fails.\<close>

definition check :: "paths \<Rightarrow> error + time \<Rightarrow> error + time \<Rightarrow> error + timePair" where
  "check P stat_cert stat_key =
     (case stat_cert of
        Inl e \<Rightarrow> Inl (Wrapped (''statting '' @ dir P @ ''/fullchain.pem'') e)
      | Inr certTime \<Rightarrow>
          (case stat_key of
             Inl e \<Rightarrow> Inl (Wrapped (''statting '' @ dir P @ ''/privkey.pem'') e)
           | Inr keyTime \<Rightarrow> Inr \<lparr>cert = certTime, key = keyTime\<rparr>))"

section \<open>Run as a state machine\<close>

text \<open>
  The channel errCh of one invocation of f (capacity 1). The goroutine of the
  invocation sends the result of f and closes the channel, in one go since the send
  never blocks. \<open>Empty\<close>: f has not returned. \<open>Full r\<close>: f returned r, which waits in the
  buffer. \<open>Drained\<close>: the result has been received; the channel is closed and empty, and a
  further receive would give nil at once.
\<close>

datatype chan = Empty | Full "error option" | Drained

type_synonym certificate = string

text \<open>One invocation of f: the certificate it was given, whether its own fcancel has
  been called (its context fctx is done when that is so, or when ctx has ended), and its
  channel.\<close>

record invocation =
  icert :: certificate
  cancelled :: bool
  ch :: chan

text \<open>Where the goroutine of Run stands: about to call check (line 204), blocked in the
  receive after fcancel (line 213), about to load the key pair (line 227), blocked in the
  select (line 246), returned with a result, or panicked.\<close>

datatype pc = AtCheck | AtDrain | AtLoad | AtSelect | Returned "error option" | Panicked

text \<open>
  The state of Run: its local variables last and next, the error of its context ctx
  (nil while the context is live), the invocations of f started so far, oldest first
  (errCh is nil when there is none, and the channel of the latest one otherwise; fcancel
  cancels the latest one), and the number of calls of tls.LoadX509KeyPair made so far.
\<close>

record run_state =
  pc :: pc
  lastp :: timePair
  nextp :: timePair
  ctx_err :: "error option"
  invs :: "invocation list"
  loads :: nat

text \<open>time.NewTicker panics on an interval that is not positive.\<close>

definition init :: "int \<Rightarrow> run_state" where
  "init interval =
     \<lparr>pc = (if interval \<le> 0 then Panicked else AtCheck),
      lastp = zero_timePair, nextp = zero_timePair,
      ctx_err = None, invs = [], loads = 0\<rparr>"

text \<open>A return of Run: the deferred fcancel of every invocation and the deferred
  cancel of ctx run.\<close>

definition ret :: "error option \<Rightarrow> run_state \<Rightarrow> run_state" where
  "ret r s =
     s\<lparr>pc := Returned r,
       ctx_err := (case ctx_err s of None \<Rightarrow> Some Canceled | Some e \<Rightarrow> Some e),
       invs := map (\<lambda>i. i\<lparr>cancelled := True\<rparr>) (invs s)\<rparr>"

text \<open>fcancel(): cancels the context of the latest invocation.\<close>

definition fcancel :: "invocation list \<Rightarrow> invocation list" where
  "fcancel is = (if is = [] then [] else butlast is @ [(last is)\<lparr>cancelled := True\<rparr>])"

text \<open>A receive from errCh. \<open>None\<close>: the receive blocks (errCh is nil, or f has not
  returned). Otherwise the value received and the invocations afterwards.\<close>

definition recv :: "invocation list \<Rightarrow> (error option \<times> invocation list) option" where
  "recv is =
     (if is = [] then None
      else (case ch (last is) of
              Empty \<Rightarrow> None
            | Full r \<Rightarrow> Some (r, butlast is @ [(last is)\<lparr>ch := Drained\<rparr>])
            | Drained \<Rightarrow> Some (None, is)))"

datatype select_case = CtxDone | Tick | ErrCh

text \<open>
  What can happen next. The first four are steps of Run itself, each running up to the
  next point where Run blocks or calls out:
  \<^item> \<open>Check sc sk\<close>: lines 204 to 219 up to the receive, with the two stat results;
  \<^item> \<open>Drain\<close>: the receive of line 213 and the test of lines 214 to 218;
  \<^item> \<open>Load res\<close>: lines 227 to 243, with the result of tls.LoadX509KeyPair;
  \<^item> \<open>Select c\<close>: the select of lines 246 to 255 taking case c.
  The other two are steps of the environment: the context given to Run ends with an
  error (context.Canceled or context.DeadlineExceeded), and invocation n of f returns.
\<close>

datatype label =
    Check "error + time" "error + time"
  | Drain
  | Load "error + certificate"
  | Select select_case
  | OuterCancel error
  | FReturn nat "error option"

text \<open>One step; \<open>None\<close> when the step cannot happen in the state.\<close>

fun step :: "paths \<Rightarrow> label \<Rightarrow> run_state \<Rightarrow> run_state option" where
  "step P (Check sc sk) s =
     (if pc s \<noteq> AtCheck then None
      else (case check P sc sk of
              Inl e \<Rightarrow> Some (ret (Some (Wrapped ''checking directory'' e)) s)
            | Inr n \<Rightarrow>
                if \<not> equal n (lastp s) then
                  (if invs s \<noteq> [] then Some (s\<lparr>pc := AtDrain, nextp := n, invs := fcancel (invs s)\<rparr>)
                   else Some (s\<lparr>pc := AtLoad, nextp := n\<rparr>))
                else Some (s\<lparr>pc := AtSelect, nextp := n\<rparr>)))"
| "step P Drain s =
     (if pc s \<noteq> AtDrain then None
      else (case recv (invs s) of
              None \<Rightarrow> None
            | Some (err, is) \<Rightarrow>
                (case err of
                   Some e \<Rightarrow>
                     if \<not> Is e Canceled \<or> ctx_err s \<noteq> None then Some (ret (Some e) (s\<lparr>invs := is\<rparr>))
                     else Some (s\<lparr>pc := AtLoad, invs := is\<rparr>)
                 | None \<Rightarrow> Some (s\<lparr>pc := AtLoad, invs := is\<rparr>))))"
| "step P (Load res) s =
     (if pc s \<noteq> AtLoad then None
      else (case res of
              Inl e \<Rightarrow>
                Some (ret (Some (Wrapped (''loading cert and key from '' @ certfile P @ '' and '' @ keyfile P) e))
                       (s\<lparr>loads := Suc (loads s)\<rparr>))
            | Inr c \<Rightarrow>
                Some (s\<lparr>pc := AtSelect, lastp := nextp s, loads := Suc (loads s),
                        invs := invs s @ [\<lparr>icert = c, cancelled = False, ch = Empty\<rparr>]\<rparr>)))"
| "step P (Select c) s =
     (if pc s \<noteq> AtSelect then None
      else (case c of
              CtxDone \<Rightarrow> (case ctx_err s of None \<Rightarrow> None | Some e \<Rightarrow> Some (ret (Some e) s))
            | Tick \<Rightarrow> Some (s\<lparr>pc := AtCheck\<rparr>)
            | ErrCh \<Rightarrow>
                (case recv (invs s) of
                   None \<Rightarrow> None
                 | Some (err, is) \<Rightarrow> Some (ret err (s\<lparr>invs := is\<rparr>)))))"
| "step P (OuterCancel e) s =
     (if e \<noteq> Canceled \<and> e \<noteq> DeadlineExceeded then None
      else Some (s\<lparr>ctx_err := (case ctx_err s of None \<Rightarrow> Some e | Some e' \<Rightarrow> Some e')\<rparr>))"
| "step P (FReturn n r) s =
     (if n < length (invs s) \<and> ch (invs s ! n) = Empty
      then Some (s\<lparr>invs := (invs s)[n := (invs s ! n)\<lparr>ch := Full r\<rparr>]\<rparr>)
      else None)"

text \<open>A run: the steps of a list of labels, one after the other.\<close>

fun exec :: "paths \<Rightarrow> label list \<Rightarrow> run_state \<Rightarrow> run_state option" where
  "exec P [] s = Some s"
| "exec P (l # ls) s = (case step P l s of None \<Rightarrow> None | Some s' \<Rightarrow> exec P ls s')"



text \<open>A directory for the examples.\<close>

definition etc :: paths where
  "etc = \<lparr>dir = ''/etc/tls'', certfile = ''/etc/tls/fullchain.pem'', keyfile = ''/etc/tls/privkey.pem''\<rparr>"

section \<open>The producers\<close>

text \<open>
  FromDir, FromCommand and the Times of package certs each start one goroutine that runs a
  \<open>for\<close> loop and sends on a channel. One pass of the loop body either returns from the
  goroutine, or goes on to the next pass, or blocks for good in a select none of whose
  cases ever becomes ready.
\<close>

datatype 's iter_result = Return 's | Continue 's | Block 's

text \<open>The goroutine after the passes it has been given: it has returned, it is still in
  its loop, or it is blocked.\<close>

datatype 's outcome = Exited 's | Running 's | Blocked 's

text \<open>The loop \<open>for { body }\<close>, run for one pass per element of the list; the element
  holds what the environment gives to that pass.\<close>

fun loop :: "('i \<Rightarrow> 's \<Rightarrow> 's iter_result) \<Rightarrow> 'i list \<Rightarrow> 's \<Rightarrow> 's outcome" where
  "loop body [] st = Running st"
| "loop body (it # its) st =
     (case body it st of
        Return st' \<Rightarrow> Exited st'
      | Block st' \<Rightarrow> Blocked st'
      | Continue st' \<Rightarrow> loop body its st')"

text \<open>What a select between ctx.Done() and a send on the channel does: it takes the case
  of ctx.Done() (ctx.Err() is then the given error), or the send, or it blocks for good.
  And what a select between ctx.Done() and the timer does.\<close>

datatype send_outcome = SendCtxDone error | Sent | SendBlocks

datatype wait_outcome = WaitCtxDone error | TimerFired

text \<open>What a producer goroutine leaves behind: the error behind the returned pointer and
  the values sent on the channel so far.\<close>

record 'a producer =
  errptr :: "error option"
  sent :: "'a list"

subsection \<open>Package certdir: Times and FromDir\<close>

text \<open>Times of package certdir: the results cert, key and err are named, so an error
  return gives back what has been assigned so far.\<close>

definition certdir_Times :: "paths \<Rightarrow> error + time \<Rightarrow> error + time \<Rightarrow> time \<times> time \<times> error option" where
  "certdir_Times P stat_cert stat_key =
     (case stat_cert of
        Inl e \<Rightarrow> (0, 0, Some (Wrapped (''statting '' @ certfile P) e))
      | Inr c \<Rightarrow>
          (case stat_key of
             Inl e \<Rightarrow> (c, 0, Some (Wrapped (''statting '' @ keyfile P) e))
           | Inr k \<Rightarrow> (c, k, None)))"

record dir_state = "certificate producer" +
  lastCertTime :: time
  lastKeyTime :: time

text \<open>What one pass of the loop of FromDir meets: the two stat results, the results of
  the two os.ReadFile and of tls.X509KeyPair, and what the two selects do.\<close>

record dir_iter =
  d_stat_cert :: "error + time"
  d_stat_key :: "error + time"
  d_read_cert :: "error + string"
  d_read_key :: "error + string"
  d_parse :: "error + certificate"
  d_send :: send_outcome
  d_wait :: wait_outcome

text \<open>The select on the timer at the end of the pass (lines 70 to 74 of the certdir
  file): the case of ctx.Done() stores ctx.Err() and falls out of the select, into the
  next pass.\<close>

definition certdir_FromDir_wait :: "wait_outcome \<Rightarrow> dir_state \<Rightarrow> dir_state iter_result" where
  "certdir_FromDir_wait w st =
     (case w of
        WaitCtxDone e \<Rightarrow> Continue (st\<lparr>errptr := Some e\<rparr>)
      | TimerFired \<Rightarrow> Continue st)"

definition certdir_FromDir_body :: "paths \<Rightarrow> dir_iter \<Rightarrow> dir_state \<Rightarrow> dir_state iter_result" where
  "certdir_FromDir_body P it st =
     (case certdir_Times P (d_stat_cert it) (d_stat_key it) of
        (newCertTime, newKeyTime, Some err) \<Rightarrow>
          Return (st\<lparr>errptr := Some (Wrapped (''checking times in '' @ dir P) err)\<rparr>)
      | (newCertTime, newKeyTime, None) \<Rightarrow>
          if lastCertTime st \<noteq> newCertTime \<or> lastKeyTime st \<noteq> newKeyTime then
            (case d_read_cert it of
               Inl e \<Rightarrow> Return (st\<lparr>errptr := Some (Wrapped (''reading '' @ certfile P) e)\<rparr>)
             | Inr certpem \<Rightarrow>
                 (case d_read_key it of
                    Inl e \<Rightarrow> Return (st\<lparr>errptr := Some (Wrapped (''reading '' @ keyfile P) e)\<rparr>)
                  | Inr keypem \<Rightarrow>
                      (case d_parse it of
                         Inl e \<Rightarrow> Return (st\<lparr>errptr := Some (Wrapped ''creating certificate object'' e)\<rparr>)
                       | Inr c \<Rightarrow>
                           (case d_send it of
                              SendCtxDone e \<Rightarrow>
                                certdir_FromDir_wait (d_wait it)
                                  (st\<lparr>errptr := Some (Wrapped ''sending certificate on channel'' e),
                                      lastCertTime := newCertTime, lastKeyTime := newKeyTime\<rparr>)
                            | Sent \<Rightarrow>
                                certdir_FromDir_wait (d_wait it)
                                  (st\<lparr>sent := sent st @ [c],
                                      lastCertTime := newCertTime, lastKeyTime := newKeyTime\<rparr>)
                            | SendBlocks \<Rightarrow> Block st))))
          else certdir_FromDir_wait (d_wait it) st)"

text \<open>The goroutine of FromDir from its start: both times are the zero Time.\<close>

definition certdir_FromDir :: "paths \<Rightarrow> dir_iter list \<Rightarrow> dir_state outcome" where
  "certdir_FromDir P its =
     loop (certdir_FromDir_body P) its
       \<lparr>errptr = None, sent = [], lastCertTime = 0, lastKeyTime = 0\<rparr>"

text \<open>A pass in which the directory is in order: both files can be statted, read and
  parsed, and a send does not block for good.\<close>

definition healthy :: "dir_iter \<Rightarrow> bool" where
  "healthy it =
     (isl (d_stat_cert it) = False \<and> isl (d_stat_key it) = False \<and>
      isl (d_read_cert it) = False \<and> isl (d_read_key it) = False \<and>
      isl (d_parse it) = False \<and> d_send it \<noteq> SendBlocks)"

subsection \<open>Package certs: Times\<close>

record times_state = "time producer" +
  latest :: time

record times_iter =
  t_stat_cert :: "error + time"
  t_stat_key :: "error + time"
  t_send :: send_outcome
  t_wait :: wait_outcome

text \<open>The select on the timer (lines 165 to 170 of certs.go): the case of ctx.Done()
  stores ctx.Err() and returns.\<close>

definition certs_Times_wait :: "wait_outcome \<Rightarrow> times_state \<Rightarrow> times_state iter_result" where
  "certs_Times_wait w st =
     (case w of
        WaitCtxDone e \<Rightarrow> Return (st\<lparr>errptr := Some e\<rparr>)
      | TimerFired \<Rightarrow> Continue st)"

definition certs_Times_body :: "paths \<Rightarrow> times_iter \<Rightarrow> times_state \<Rightarrow> times_state iter_result" where
  "certs_Times_body P it st =
     (case t_stat_cert it of
        Inl e \<Rightarrow> Return (st\<lparr>errptr := Some (Wrapped (''statting '' @ certfile P) e)\<rparr>)
      | Inr certTime \<Rightarrow>
          (case t_stat_key it of
             Inl e \<Rightarrow> Return (st\<lparr>errptr := Some (Wrapped (''statting '' @ keyfile P) e)\<rparr>)
           | Inr keyTime \<Rightarrow>
               (let newLatest = (if certTime < keyTime then keyTime else certTime)
                in if latest st < newLatest then
                     (case t_send it of
                        SendCtxDone e \<Rightarrow> Return (st\<lparr>latest := newLatest, errptr := Some e\<rparr>)
                      | Sent \<Rightarrow>
                          certs_Times_wait (t_wait it)
                            (st\<lparr>latest := newLatest, sent := sent st @ [newLatest]\<rparr>)
                      | SendBlocks \<Rightarrow> Block (st\<lparr>latest := newLatest\<rparr>))
                   else certs_Times_wait (t_wait it) st)))"

definition certs_Times :: "paths \<Rightarrow> times_iter list \<Rightarrow> times_state outcome" where
  "certs_Times P its =
     loop (certs_Times_body P) its \<lparr>errptr = None, sent = [], latest = 0\<rparr>"

subsection \<open>FromCommand\<close>

text \<open>What one pass of the loop of FromCommand meets: the result of dec.Decode (the two
  PEM blocks), the result of tls.X509KeyPair, and what the select does. The loop is the
  same in both packages (in package certs the goroutine also closes the channel when it
  returns; in package certdir nothing closes it).\<close>

record cmd_iter =
  c_decode :: "error + string \<times> string"
  c_parse :: "error + certificate"
  c_send :: send_outcome

definition FromCommand_body :: "cmd_iter \<Rightarrow> certificate producer \<Rightarrow> certificate producer iter_result" where
  "FromCommand_body it st =
     (case c_decode it of
        Inl e \<Rightarrow> Return (st\<lparr>errptr := Some (Wrapped ''decoding JSON'' e)\<rparr>)
      | Inr pair \<Rightarrow>
          (case c_parse it of
             Inl e \<Rightarrow> Return (st\<lparr>errptr := Some (Wrapped ''creating key pair'' e)\<rparr>)
           | Inr c \<Rightarrow>
               (case c_send it of
                  SendCtxDone e \<Rightarrow> Return (st\<lparr>errptr := Some e\<rparr>)
                | Sent \<Rightarrow> Continue (st\<lparr>sent := sent st @ [c]\<rparr>)
                | SendBlocks \<Rightarrow> Block st)))"

definition FromCommand :: "cmd_iter list \<Rightarrow> certificate producer outcome" where
  "FromCommand its = loop FromCommand_body its \<lparr>errptr = None, sent = []\<rparr>"

text \<open>The function wait that FromCommand returns, in package certdir: given the result
  of cmd.Wait() and the error behind errptr.\<close>

definition certdir_wait :: "error option \<Rightarrow> error option \<Rightarrow> error option" where
  "certdir_wait wait_err p = (let err = wait_err in if p \<noteq> None then p else err)"

text \<open>The same in package certs; cmd is the command as printed.\<close>

definition certs_wait :: "string \<Rightarrow> error option \<Rightarrow> error option \<Rightarrow> error option" where
  "certs_wait cmd wait_err p =
     (let err = wait_err;
          err = Wrap err (''waiting for '' @ cmd)
      in if p \<noteq> None then Join [err, p] else err)"

text \<open>The steps of the environment, and the steps that probe the directory.\<close>

fun env_label :: "label \<Rightarrow> bool" where
  "env_label (OuterCancel e) = True"
| "env_label (FReturn n r) = True"
| "env_label l = False"

fun is_Check :: "label \<Rightarrow> bool" where
  "is_Check (Check sc sk) = True"
| "is_Check l = False"

text \<open>After a probe that gave the pair p: next holds p, and so does last whenever Run
  waits in the select or is back at the probe.\<close>

definition settled :: "timePair \<Rightarrow> run_state \<Rightarrow> bool" where
  "settled p s = (nextp s = p \<and> (pc s = AtSelect \<or> pc s = AtCheck \<longrightarrow> lastp s = p))"

text \<open>States of the examples. \<open>running\<close>: the first key pair (both files of time 1) has
  been loaded and invocation 0 runs. \<open>renewal\<close> takes Run from its start to \<open>draining\<close>:
  at the next tick the key file has time 2, invocation 0 has been cancelled and Run waits
  for its result.\<close>

definition running :: run_state where
  "running =
     \<lparr>pc = AtSelect, lastp = \<lparr>cert = 1, key = 1\<rparr>, nextp = \<lparr>cert = 1, key = 1\<rparr>,
      ctx_err = None, invs = [\<lparr>icert = ''one'', cancelled = False, ch = Empty\<rparr>], loads = 1\<rparr>"

definition renewal :: "label list" where
  "renewal = [Check (Inr 1) (Inr 1), Load (Inr ''one''), Select Tick, Check (Inr 1) (Inr 2)]"

definition draining :: run_state where
  "draining =
     \<lparr>pc = AtDrain, lastp = \<lparr>cert = 1, key = 1\<rparr>, nextp = \<lparr>cert = 1, key = 2\<rparr>,
      ctx_err = None, invs = [\<lparr>icert = ''one'', cancelled = True, ch = Empty\<rparr>], loads = 1\<rparr>"

section \<open>Single flight\<close>

lemma fcancel_butlast [simp]: "butlast (fcancel is) = butlast is"
  by (simp add: fcancel_def)

lemma fcancel_nil [simp]: "(fcancel is = []) = (is = [])"
  by (simp add: fcancel_def)



lemma map_cancel_drained [simp]:
  "list_all (\<lambda>i. ch i = Drained) (map (\<lambda>i. i\<lparr>cancelled := True\<rparr>) is) =
   list_all (\<lambda>i. ch i = Drained) is"
  by (induction "is") auto









section \<open>The examples are runs\<close>

lemmas run_defs =
  init_def check_def equal_def zero_timePair_def fcancel_def recv_def ret_def etc_def
  running_def renewal_def draining_def

lemma running_reached: "exec etc [Check (Inr 1) (Inr 1), Load (Inr ''one'')] (init 1) = Some running"
  by (simp add: run_defs)

lemma draining_reached: "exec etc renewal (init 1) = Some draining"
  by (simp add: run_defs)

section \<open>Termination of Run is final\<close>

lemma ret_simps [simp]:
  "pc (ret r s) = Returned r"
  "loads (ret r s) = loads s"
  "length (invs (ret r s)) = length (invs s)"
  "lastp (ret r s) = lastp s"
  "nextp (ret r s) = nextp s"
  by (simp_all add: ret_def)

lemma recv_length: "recv is = Some (r, is') \<Longrightarrow> length is' = length is"
  by (auto simp: recv_def split: if_splits chan.splits)

lemma step_Returned:
  assumes "pc s = Returned r" "step P l s = Some s'"
  shows "pc s' = Returned r \<and> env_label l \<and> length (invs s') = length (invs s) \<and> loads s' = loads s"
  using assms by (cases l) (auto split: if_splits)

text \<open>Once Run has returned, only the environment moves: Run probes nothing, loads
  nothing and starts nothing.\<close>

lemma exec_Returned:
  "pc s = Returned r \<Longrightarrow> exec P ls s = Some s' \<Longrightarrow>
   pc s' = Returned r \<and> list_all env_label ls \<and>
   length (invs s') = length (invs s) \<and> loads s' = loads s"
proof (induction ls arbitrary: s)
  case Nil
  then show ?case by simp
next
  case (Cons l ls)
  from Cons.prems(2) obtain s1 where 1: "step P l s = Some s1" and 2: "exec P ls s1 = Some s'"
    by (auto split: option.splits)
  from step_Returned [OF Cons.prems(1) 1] Cons.IH [OF _ 2] show ?case by simp
qed

section \<open>Draining\<close>




text \<open>
  C10. When the result Run receives from the invocation it has just cancelled is nil, Run
  does not return: it loads the new key pair and starts a fresh invocation with it (and
  this whether or not ctx has ended, since ctx.Err() is only looked at for an error).
\<close>

theorem Run_drain_nil:
  assumes "pc s = AtDrain" "recv (invs s) = Some (None, is)"
  shows "exec P [Drain, Load (Inr c)] s =
           Some (s\<lparr>pc := AtSelect, lastp := nextp s, loads := Suc (loads s),
                   invs := is @ [\<lparr>icert = c, cancelled = False, ch = Empty\<rparr>]\<rparr>)"
  using assms by simp

theorem Run_drain_nil_witness:
  "exec etc [Drain, Load (Inr ''two'')]
     (draining\<lparr>invs := [\<lparr>icert = ''one'', cancelled = True, ch = Full None\<rparr>]\<rparr>)
   = Some \<lparr>pc = AtSelect, lastp = \<lparr>cert = 1, key = 2\<rparr>, nextp = \<lparr>cert = 1, key = 2\<rparr>,
           ctx_err = None,
           invs = [\<lparr>icert = ''one'', cancelled = True, ch = Drained\<rparr>,
                   \<lparr>icert = ''two'', cancelled = False, ch = Empty\<rparr>], loads = 2\<rparr>"
proof -
  let ?s = "draining\<lparr>invs := [\<lparr>icert = ''one'', cancelled = True, ch = Full None\<rparr>]\<rparr>"
  have 1: "pc ?s = AtDrain" by (simp add: draining_def)
  have 2: "recv (invs ?s) = Some (None, [\<lparr>icert = ''one'', cancelled = True, ch = Drained\<rparr>])"
    by (simp add: recv_def)
  from Run_drain_nil [OF 1 2, of etc "''two''"] show ?thesis
    by (simp add: draining_def)
qed

text \<open>
  C6, as the code has it. When ctx has ended by the time Run, having cancelled the current
  invocation, receives its result, and that result is an error e, Run returns e (the
  invocation's own result) and from then on only the environment moves: no key pair is
  loaded and the pending invocation is never started.
\<close>

theorem Run_drain_shutdown:
  assumes "pc s = AtDrain" "ctx_err s = Some c" "recv (invs s) = Some (Some e, is)"
    and "exec P (Drain # ls) s = Some s'"
  shows "pc s' = Returned (Some e) \<and> list_all env_label ls \<and>
         length (invs s') = length (invs s) \<and> loads s' = loads s"
proof -
  from assms have "exec P ls (ret (Some e) (s\<lparr>invs := is\<rparr>)) = Some s'" by simp
  from exec_Returned [OF _ this, of "Some e"] recv_length [OF assms(3)] show ?thesis by simp
qed

theorem Run_drain_shutdown_witness:
  "exec etc [OuterCancel Canceled, FReturn 0 (Some Canceled)] draining
     = Some (draining\<lparr>ctx_err := Some Canceled,
                       invs := [\<lparr>icert = ''one'', cancelled = True, ch = Full (Some Canceled)\<rparr>]\<rparr>) \<and>
   exec etc [Drain]
     (draining\<lparr>ctx_err := Some Canceled,
               invs := [\<lparr>icert = ''one'', cancelled = True, ch = Full (Some Canceled)\<rparr>]\<rparr>)
     = Some (draining\<lparr>pc := Returned (Some Canceled), ctx_err := Some Canceled,
                       invs := [\<lparr>icert = ''one'', cancelled = True, ch = Drained\<rparr>]\<rparr>)"
proof -
  let ?s = "draining\<lparr>ctx_err := Some Canceled,
               invs := [\<lparr>icert = ''one'', cancelled = True, ch = Full (Some Canceled)\<rparr>]\<rparr>"
  let ?s' = "draining\<lparr>pc := Returned (Some Canceled), ctx_err := Some Canceled,
                       invs := [\<lparr>icert = ''one'', cancelled = True, ch = Drained\<rparr>]\<rparr>"
  have 0: "exec etc [OuterCancel Canceled, FReturn 0 (Some Canceled)] draining = Some ?s"
    by (simp add: run_defs)
  have 1: "pc ?s = AtDrain" by (simp add: draining_def)
  have 2: "ctx_err ?s = Some Canceled" by simp
  have 3: "recv (invs ?s) = Some (Some Canceled, [\<lparr>icert = ''one'', cancelled = True, ch = Drained\<rparr>])"
    by (simp add: recv_def)
  have 4: "exec etc [Drain] ?s = Some ?s'" by (simp add: run_defs)
  from Run_drain_shutdown [OF 1 2 3 4] 0 4 show ?thesis by simp
qed

text \<open>C6 as stated fails: the context ends while Run waits for the cancelled invocation,
  the invocation returns nil, and Run loads the new key pair and starts invocation 1.\<close>

theorem Run_drain_shutdown_counterexample:
  "exec etc (renewal @ [OuterCancel Canceled]) (init 1) = Some (draining\<lparr>ctx_err := Some Canceled\<rparr>) \<and>
   exec etc [FReturn 0 None, Drain, Load (Inr ''two'')] (draining\<lparr>ctx_err := Some Canceled\<rparr>)
     = Some \<lparr>pc = AtSelect, lastp = \<lparr>cert = 1, key = 2\<rparr>, nextp = \<lparr>cert = 1, key = 2\<rparr>,
             ctx_err = Some Canceled,
             invs = [\<lparr>icert = ''one'', cancelled = True, ch = Drained\<rparr>,
                     \<lparr>icert = ''two'', cancelled = False, ch = Empty\<rparr>], loads = 2\<rparr>"
  by (simp add: run_defs)

section \<open>Completion of the invocation seen by the select\<close>




section \<open>Failures of the probe and of the load\<close>

text \<open>
  C4. When check fails, Run returns its error wrapped as "checking directory", the error
  of check being the stat error wrapped with the path of the file; when
  tls.LoadX509KeyPair fails, Run returns its error wrapped with the two paths. In both
  cases only the environment moves afterwards: there is no further probe or load (no
  retry) and no invocation is started.
\<close>

theorem Run_failure_fatal:
  "(pc s = AtCheck \<and> check P sc sk = Inl e \<and> exec P (Check sc sk # ls) s = Some s' \<longrightarrow>
      pc s' = Returned (Some (Wrapped ''checking directory'' e)) \<and>
      (case sc of
         Inl e0 \<Rightarrow> e = Wrapped (''statting '' @ dir P @ ''/fullchain.pem'') e0
       | Inr t \<Rightarrow> (case sk of
                    Inl e0 \<Rightarrow> e = Wrapped (''statting '' @ dir P @ ''/privkey.pem'') e0
                  | Inr t' \<Rightarrow> False)) \<and>
      list_all env_label ls \<and> length (invs s') = length (invs s) \<and> loads s' = loads s) \<and>
   (pc s = AtLoad \<and> exec P (Load (Inl e) # ls) s = Some s' \<longrightarrow>
      pc s' = Returned (Some (Wrapped (''loading cert and key from '' @ certfile P @ '' and '' @ keyfile P) e)) \<and>
      list_all env_label ls \<and> length (invs s') = length (invs s) \<and> loads s' = Suc (loads s))"
proof (intro conjI impI)
  assume a: "pc s = AtCheck \<and> check P sc sk = Inl e \<and> exec P (Check sc sk # ls) s = Some s'"
  then have "exec P ls (ret (Some (Wrapped ''checking directory'' e)) s) = Some s'" by auto
  from exec_Returned [OF _ this, of "Some (Wrapped ''checking directory'' e)"]
  show "pc s' = Returned (Some (Wrapped ''checking directory'' e))" "list_all env_label ls"
    "length (invs s') = length (invs s)" "loads s' = loads s" by simp_all
  from a show "case sc of
         Inl e0 \<Rightarrow> e = Wrapped (''statting '' @ dir P @ ''/fullchain.pem'') e0
       | Inr t \<Rightarrow> (case sk of
                    Inl e0 \<Rightarrow> e = Wrapped (''statting '' @ dir P @ ''/privkey.pem'') e0
                  | Inr t' \<Rightarrow> False)"
    by (auto simp: check_def split: sum.splits)
next
  let ?w = "Some (Wrapped (''loading cert and key from '' @ certfile P @ '' and '' @ keyfile P) e)"
  assume a: "pc s = AtLoad \<and> exec P (Load (Inl e) # ls) s = Some s'"
  then have "exec P ls (ret ?w (s\<lparr>loads := Suc (loads s)\<rparr>)) = Some s'" by auto
  from exec_Returned [OF _ this, of ?w]
  show "pc s' = Returned ?w" "list_all env_label ls"
    "length (invs s') = length (invs s)" "loads s' = Suc (loads s)" by simp_all
qed

text \<open>The key file is missing at the second tick; the key pair does not parse at the
  first load.\<close>

theorem Run_failure_fatal_witness:
  "exec etc [Select Tick, Check (Inr 1) (Inl (Leaf ''no such file''))] running
     = Some (running\<lparr>pc := Returned (Some (Wrapped ''checking directory''
                              (Wrapped ''statting /etc/tls/privkey.pem'' (Leaf ''no such file'')))),
                      ctx_err := Some Canceled,
                      invs := [\<lparr>icert = ''one'', cancelled = True, ch = Empty\<rparr>]\<rparr>) \<and>
   exec etc [Check (Inr 1) (Inr 1), Load (Inl (Leaf ''no PEM data''))] (init 1)
     = Some \<lparr>pc = Returned (Some (Wrapped
                 ''loading cert and key from /etc/tls/fullchain.pem and /etc/tls/privkey.pem''
                 (Leaf ''no PEM data''))),
             lastp = \<lparr>cert = 0, key = 0\<rparr>, nextp = \<lparr>cert = 1, key = 1\<rparr>,
             ctx_err = Some Canceled, invs = [], loads = 1\<rparr>"
proof -
  let ?s1 = "running\<lparr>pc := AtCheck\<rparr>"
  let ?e = "Wrapped ''statting /etc/tls/privkey.pem'' (Leaf ''no such file'')"
  let ?s1' = "running\<lparr>pc := Returned (Some (Wrapped ''checking directory'' ?e)),
                      ctx_err := Some Canceled,
                      invs := [\<lparr>icert = ''one'', cancelled = True, ch = Empty\<rparr>]\<rparr>"
  let ?s2 = "(init 1)\<lparr>pc := AtLoad, nextp := \<lparr>cert = 1, key = 1\<rparr>\<rparr>"
  let ?s2' = "\<lparr>pc = Returned (Some (Wrapped
                 ''loading cert and key from /etc/tls/fullchain.pem and /etc/tls/privkey.pem''
                 (Leaf ''no PEM data''))),
             lastp = \<lparr>cert = 0, key = 0\<rparr>, nextp = \<lparr>cert = 1, key = 1\<rparr>,
             ctx_err = Some Canceled, invs = [], loads = 1\<rparr>"
  have a1: "pc ?s1 = AtCheck" by simp
  have a2: "check etc (Inr 1) (Inl (Leaf ''no such file'')) = Inl ?e"
    by (simp add: check_def etc_def)
  have a3: "exec etc (Check (Inr 1) (Inl (Leaf ''no such file'')) # []) ?s1 = Some ?s1'"
    by (simp add: run_defs)
  have b1: "pc ?s2 = AtLoad" by simp
  have b2: "exec etc (Load (Inl (Leaf ''no PEM data'')) # []) ?s2 = Some ?s2'"
    by (simp add: run_defs)
  have c1: "exec etc [Select Tick] running = Some ?s1" by (simp add: run_defs)
  have c2: "exec etc [Check (Inr 1) (Inr 1)] (init 1) = Some ?s2" by (simp add: run_defs)
  from Run_failure_fatal [where s = ?s1 and P = etc and sc = "Inr 1"
      and sk = "Inl (Leaf ''no such file'')" and e = ?e and ls = "[]" and s' = ?s1'] a1 a2 a3
  have "pc ?s1' = Returned (Some (Wrapped ''checking directory'' ?e))" by blast
  moreover
  from Run_failure_fatal [where s = ?s2 and P = etc and e = "Leaf ''no PEM data''"
      and ls = "[]" and s' = ?s2'] b1 b2
  have "loads ?s2' = Suc (loads ?s2)" by blast
  ultimately show ?thesis using a3 b2 c1 c2 by (simp add: run_defs)
qed

section \<open>Ticks that find nothing new\<close>

lemma settled_step:
  assumes "settled p s" "step P l s = Some s'" "\<not> is_Check l"
  shows "settled p s'"
  using assms
  by (cases l)
    (auto simp: settled_def split: if_splits option.splits sum.splits select_case.splits)

lemma settled_exec:
  "settled p s \<Longrightarrow> exec P ls s = Some s' \<Longrightarrow> list_all (\<lambda>l. \<not> is_Check l) ls \<Longrightarrow> settled p s'"
  by (induction ls arbitrary: s) (auto split: option.splits dest: settled_step)

lemma settled_after_Check:
  assumes "step P (Check (Inr a) (Inr b)) s = Some s'"
  shows "settled \<lparr>cert = a, key = b\<rparr> s'"
  using assms
  by (auto simp: settled_def check_def equal_def split: if_splits)

text \<open>
  C8. Take a probe of Run that finds the times (a, b), any steps after it that hold no
  further probe, and then the next probe, which finds (a, b) again. That second probe
  leaves Run in its select: it calls tls.LoadX509KeyPair not at all, starts no invocation
  (and cancels none), and leaves last as it was.
\<close>

theorem Run_noop_tick:
  assumes "step P (Check (Inr a) (Inr b)) s0 = Some s1"
    and "exec P ls s1 = Some s2" and "list_all (\<lambda>l. \<not> is_Check l) ls"
    and "step P (Check (Inr a) (Inr b)) s2 = Some s3"
  shows "pc s3 = AtSelect \<and> loads s3 = loads s2 \<and> invs s3 = invs s2 \<and> lastp s3 = lastp s2"
proof -
  from settled_exec [OF settled_after_Check [OF assms(1)] assms(2,3)]
  have st: "settled \<lparr>cert = a, key = b\<rparr> s2" .
  from assms(4) have "pc s2 = AtCheck" by (auto split: if_splits)
  with st have "lastp s2 = \<lparr>cert = a, key = b\<rparr>" by (simp add: settled_def)
  with assms(4) show ?thesis by (auto simp: check_def equal_def split: if_splits)
qed

theorem Run_noop_tick_witness:
  "step etc (Check (Inr 1) (Inr 1)) (init 1) = Some ((init 1)\<lparr>pc := AtLoad, nextp := \<lparr>cert = 1, key = 1\<rparr>\<rparr>) \<and>
   exec etc [Load (Inr ''one''), Select Tick] ((init 1)\<lparr>pc := AtLoad, nextp := \<lparr>cert = 1, key = 1\<rparr>\<rparr>)
     = Some (running\<lparr>pc := AtCheck\<rparr>) \<and>
   step etc (Check (Inr 1) (Inr 1)) (running\<lparr>pc := AtCheck\<rparr>) = Some running"
proof -
  let ?s1 = "(init 1)\<lparr>pc := AtLoad, nextp := \<lparr>cert = 1, key = 1\<rparr>\<rparr>"
  let ?s2 = "running\<lparr>pc := AtCheck\<rparr>"
  have 1: "step etc (Check (Inr 1) (Inr 1)) (init 1) = Some ?s1" by (simp add: run_defs)
  have 2: "exec etc [Load (Inr ''one''), Select Tick] ?s1 = Some ?s2" by (simp add: run_defs)
  have 3: "list_all (\<lambda>l. \<not> is_Check l) [Load (Inr ''one''), Select Tick]" by simp
  have 4: "step etc (Check (Inr 1) (Inr 1)) ?s2 = Some running" by (simp add: run_defs)
  from Run_noop_tick [OF 1 2 3 4] 1 2 4 show ?thesis by simp
qed

section \<open>Change detection\<close>




section \<open>The goroutine of FromDir in package certdir\<close>

lemma certdir_FromDir_wait_Continue: "\<exists>st'. certdir_FromDir_wait w st = Continue st'"
  by (cases w) (simp_all add: certdir_FromDir_wait_def)

lemma healthy_Continue:
  assumes "healthy it"
  shows "\<exists>st'. certdir_FromDir_body P it st = Continue st'"
proof -
  from assms obtain a b cp kp c where
    "d_stat_cert it = Inr a" "d_stat_key it = Inr b" "d_read_cert it = Inr cp"
    "d_read_key it = Inr kp" "d_parse it = Inr c" "d_send it \<noteq> SendBlocks"
    by (auto simp: healthy_def isl_def) (metis sum.exhaust)
  then show ?thesis
    using certdir_FromDir_wait_Continue
    by (cases "d_send it") (auto simp: certdir_FromDir_body_def certdir_Times_def)
qed

text \<open>
  C7, what the code does. The goroutine of FromDir in package certdir returns only on a
  failure of a stat, a read or the parse: as long as the directory is in order it is still
  in its loop after any number of passes, whatever the selects find, a cancelled context
  included. Its channel is then never closed.
\<close>

theorem certdir_FromDir_never_returns:
  "list_all healthy its \<Longrightarrow> \<exists>st'. loop (certdir_FromDir_body P) its st = Running st'"
proof (induction its arbitrary: st)
  case Nil
  then show ?case by simp
next
  case (Cons it its)
  then have "healthy it" and rest: "list_all healthy its" by simp_all
  from healthy_Continue [OF this(1)] obtain st1
    where "certdir_FromDir_body P it st = Continue st1" by blast
  with Cons.IH [OF rest, of st1] show ?case by simp
qed

text \<open>The first pass sends the certificate; then the context is cancelled, and two more
  passes find it so in both selects.\<close>

theorem certdir_FromDir_never_returns_witness:
  "certdir_FromDir etc
     [\<lparr>d_stat_cert = Inr 1, d_stat_key = Inr 1, d_read_cert = Inr ''cert'', d_read_key = Inr ''key'',
       d_parse = Inr ''one'', d_send = Sent, d_wait = TimerFired\<rparr>,
      \<lparr>d_stat_cert = Inr 1, d_stat_key = Inr 1, d_read_cert = Inr ''cert'', d_read_key = Inr ''key'',
       d_parse = Inr ''one'', d_send = SendCtxDone Canceled, d_wait = WaitCtxDone Canceled\<rparr>,
      \<lparr>d_stat_cert = Inr 1, d_stat_key = Inr 1, d_read_cert = Inr ''cert'', d_read_key = Inr ''key'',
       d_parse = Inr ''one'', d_send = SendCtxDone Canceled, d_wait = WaitCtxDone Canceled\<rparr>]
   = Running \<lparr>errptr = Some Canceled, sent = [''one''], lastCertTime = 1, lastKeyTime = 1\<rparr>"
proof -
  let ?its = "[\<lparr>d_stat_cert = Inr 1, d_stat_key = Inr 1, d_read_cert = Inr ''cert'', d_read_key = Inr ''key'',
       d_parse = Inr ''one'', d_send = Sent, d_wait = TimerFired\<rparr>,
      \<lparr>d_stat_cert = Inr 1, d_stat_key = Inr 1, d_read_cert = Inr ''cert'', d_read_key = Inr ''key'',
       d_parse = Inr ''one'', d_send = SendCtxDone Canceled, d_wait = WaitCtxDone Canceled\<rparr>,
      \<lparr>d_stat_cert = Inr 1, d_stat_key = Inr 1, d_read_cert = Inr ''cert'', d_read_key = Inr ''key'',
       d_parse = Inr ''one'', d_send = SendCtxDone Canceled, d_wait = WaitCtxDone Canceled\<rparr>]"
  have h: "list_all healthy ?its" by (simp add: healthy_def)
  from certdir_FromDir_never_returns
    [OF h, of etc "\<lparr>errptr = None, sent = [], lastCertTime = 0, lastKeyTime = 0\<rparr>"]
  show ?thesis
    by (simp add: certdir_FromDir_def certdir_FromDir_body_def certdir_Times_def
        certdir_FromDir_wait_def)
qed

text \<open>The Times of package certs does return: a pass whose select on the timer finds the
  context done ends the goroutine with an error stored.\<close>

theorem certs_Times_exits:
  assumes "t_stat_cert it = Inr a" "t_stat_key it = Inr b"
    and "t_send it \<noteq> SendBlocks" "t_wait it = WaitCtxDone e"
  shows "\<exists>st'. loop (certs_Times_body P) (it # its) st = Exited st' \<and> errptr st' \<noteq> None"
  using assms
  by (cases "t_send it") (auto simp: certs_Times_body_def certs_Times_wait_def Let_def)

theorem certs_Times_exits_witness:
  "certs_Times etc
     [\<lparr>t_stat_cert = Inr 10, t_stat_key = Inr 5, t_send = Sent, t_wait = WaitCtxDone Canceled\<rparr>]
   = Exited \<lparr>errptr = Some Canceled, sent = [10], latest = 10\<rparr>"
proof -
  let ?it = "\<lparr>t_stat_cert = Inr 10, t_stat_key = Inr 5, t_send = Sent, t_wait = WaitCtxDone Canceled\<rparr>"
  have "t_stat_cert ?it = Inr 10" "t_stat_key ?it = Inr 5" "t_send ?it \<noteq> SendBlocks"
    "t_wait ?it = WaitCtxDone Canceled" by simp_all
  from certs_Times_exits [OF this, of etc "[]" "\<lparr>errptr = None, sent = [], latest = 0\<rparr>"]
  show ?thesis
    by (simp add: certs_Times_def certs_Times_body_def certs_Times_wait_def)
qed

section \<open>FromCommand and its wait\<close>

lemma Is_refl [simp]: "Is e e"
  by (cases e) simp_all

text \<open>
  C9, what the code does. In both packages a failure of dec.Decode or of
  tls.X509KeyPair ends the goroutine of FromCommand with that error, wrapped, behind
  errptr. In package certdir the wait function then returns that error alone, whatever
  cmd.Wait() returned: the exit status of the subprocess is dropped.
\<close>

theorem FromCommand_failure:
  "(c_decode it = Inl e \<longrightarrow>
      loop FromCommand_body (it # its) st
        = Exited (st\<lparr>errptr := Some (Wrapped ''decoding JSON'' e)\<rparr>)) \<and>
   (c_decode it = Inr pair \<and> c_parse it = Inl e \<longrightarrow>
      loop FromCommand_body (it # its) st
        = Exited (st\<lparr>errptr := Some (Wrapped ''creating key pair'' e)\<rparr>)) \<and>
   certdir_wait w (Some p) = Some p"
  by (simp add: FromCommand_body_def certdir_wait_def)

text \<open>The subprocess dies with status 1 in the middle of a record.\<close>

theorem FromCommand_failure_witness:
  "FromCommand [\<lparr>c_decode = Inl (Leaf ''unexpected EOF''), c_parse = Inr ''one'', c_send = Sent\<rparr>]
     = Exited \<lparr>errptr = Some (Wrapped ''decoding JSON'' (Leaf ''unexpected EOF'')), sent = []\<rparr> \<and>
   certdir_wait (Some (Leaf ''exit status 1'')) (Some (Wrapped ''decoding JSON'' (Leaf ''unexpected EOF'')))
     = Some (Wrapped ''decoding JSON'' (Leaf ''unexpected EOF'')) \<and>
   Is (Wrapped ''decoding JSON'' (Leaf ''unexpected EOF'')) (Leaf ''exit status 1'') = False"
proof -
  let ?it = "\<lparr>c_decode = Inl (Leaf ''unexpected EOF''), c_parse = Inr ''one'', c_send = Sent\<rparr>"
  from FromCommand_failure [where it = ?it and e = "Leaf ''unexpected EOF''" and its = "[]"
      and st = "\<lparr>errptr = None, sent = []\<rparr>" and w = "Some (Leaf ''exit status 1'')"
      and p = "Wrapped ''decoding JSON'' (Leaf ''unexpected EOF'')"]
  show ?thesis by (simp add: FromCommand_def)
qed

text \<open>In package certs the wait function returns both: the error of cmd.Wait(), wrapped,
  joined with the error behind errptr.\<close>

theorem certs_wait_joins:
  "certs_wait cmd (Some x) (Some p) = Some (Joined [Wrapped (''waiting for '' @ cmd) x, p]) \<and>
   Is (Joined [Wrapped (''waiting for '' @ cmd) x, p]) x \<and>
   Is (Joined [Wrapped (''waiting for '' @ cmd) x, p]) p"
  by (simp add: certs_wait_def Wrap_def Join_def)

theorem certs_wait_joins_witness:
  "certs_wait ''sh -c certdir'' (Some (Leaf ''exit status 1''))
       (Some (Wrapped ''decoding JSON'' (Leaf ''unexpected EOF'')))
     = Some (Joined [Wrapped ''waiting for sh -c certdir'' (Leaf ''exit status 1''),
                     Wrapped ''decoding JSON'' (Leaf ''unexpected EOF'')])"
  using certs_wait_joins [of "''sh -c certdir''" "Leaf ''exit status 1''"
      "Wrapped ''decoding JSON'' (Leaf ''unexpected EOF'')"]
  by simp

end
